theory Spec2Isabelle
  imports Complex_Main
begin

section \<open>The marketplace order synchroniser (syncOpenseaOrders.js)\<close>

text \<open>
  The script polls a marketplace for the sell listings of one collection, turns every
  order of every page into a payload and posts the payload to a backend. This theory
  embeds its functions and settles what the specification says about them.
\<close>

subsection \<open>JavaScript values that come out of a JSON body\<close>

text \<open>
  An order is whatever \<^verbatim>\<open>res.json()\<close> parsed: a JSON value. \<open>JUndef\<close> is JavaScript's
  \<^verbatim>\<open>undefined\<close>, the value of a property that is not there. An object is the list
  of its own properties (the first entry for a key is the property). A number is given
  by its value, a rational: every number the parser produces has one, and the script asks
  of a number only whether it is zero, or for its string. A string is the list of its
  characters; the script itself never looks inside a character.
\<close>

datatype json =
    JUndef
  | JNull
  | JBool bool
  | JNum rat
  | JStr string
  | JArr "json list"
  | JObj "(string \<times> json) list"

datatype error = TypeError | SyntaxError | NetworkError | URIError

text \<open>Truthiness, as \<^verbatim>\<open>||\<close>, \<^verbatim>\<open>!\<close> and \<^verbatim>\<open>if\<close> read it.\<close>

fun truthy :: "json \<Rightarrow> bool" where
  "truthy JUndef = False"
| "truthy JNull = False"
| "truthy (JBool b) = b"
| "truthy (JNum n) = (n \<noteq> 0)"
| "truthy (JStr s) = (s \<noteq> [])"
| "truthy (JArr xs) = True"
| "truthy (JObj kvs) = True"

fun nullish :: "json \<Rightarrow> bool" where
  "nullish JUndef = True"
| "nullish JNull = True"
| "nullish v = False"

text \<open>
  Reading the property \<open>k\<close> of a value that is neither \<^verbatim>\<open>null\<close> nor
  \<^verbatim>\<open>undefined\<close>. The script reads only names that no prototype defines, apart from
  \<^verbatim>\<open>length\<close>, which arrays and strings have.
\<close>

fun getprop :: "json \<Rightarrow> string \<Rightarrow> json" where
  "getprop (JObj kvs) k = (case map_of kvs k of Some v \<Rightarrow> v | None \<Rightarrow> JUndef)"
| "getprop (JArr xs) k = (if k = ''length'' then JNum (of_nat (length xs)) else JUndef)"
| "getprop (JStr s) k = (if k = ''length'' then JNum (of_nat (length s)) else JUndef)"
| "getprop v k = JUndef"

text \<open>\<^verbatim>\<open>v.k\<close> raises a TypeError on \<^verbatim>\<open>null\<close> and \<^verbatim>\<open>undefined\<close>; \<^verbatim>\<open>v?.k\<close> gives \<^verbatim>\<open>undefined\<close> there.\<close>

definition get :: "json \<Rightarrow> string \<Rightarrow> error + json" where
  "get v k = (if nullish v then Inl TypeError else Inr (getprop v k))"

definition oget :: "json \<Rightarrow> string \<Rightarrow> json" where
  "oget v k = (if nullish v then JUndef else getprop v k)"

text \<open>\<^verbatim>\<open>v[0]\<close> on a value that is neither \<^verbatim>\<open>null\<close> nor \<^verbatim>\<open>undefined\<close>, and \<^verbatim>\<open>v?.[0]\<close>.\<close>

fun idx0 :: "json \<Rightarrow> json" where
  "idx0 (JArr xs) = (case xs of [] \<Rightarrow> JUndef | x # _ \<Rightarrow> x)"
| "idx0 (JStr s) = (case s of [] \<Rightarrow> JUndef | c # _ \<Rightarrow> JStr [c])"
| "idx0 (JObj kvs) = (case map_of kvs ''0'' of Some v \<Rightarrow> v | None \<Rightarrow> JUndef)"
| "idx0 v = JUndef"

definition oidx0 :: "json \<Rightarrow> json" where
  "oidx0 v = (if nullish v then JUndef else idx0 v)"

text \<open>\<^verbatim>\<open>a || b\<close>, for operands that cannot raise, and for operands that can.\<close>

definition or_else :: "json \<Rightarrow> json \<Rightarrow> json" where
  "or_else a b = (if truthy a then a else b)"

fun or_r :: "error + json \<Rightarrow> error + json \<Rightarrow> error + json" where
  "or_r (Inl e) b = Inl e"
| "or_r (Inr v) b = (if truthy v then Inr v else b)"

subsection \<open>The engine's functions, \<^verbatim>\<open>toLowerCase\<close> and template literals\<close>

text \<open>
  Three functions that the script calls are the JavaScript engine's and not the
  script's: the string of a number (\<^verbatim>\<open>Number.prototype.toString\<close>, exponent notation
  for large values and all), \<^verbatim>\<open>String.prototype.toLowerCase\<close>, which follows Unicode,
  and \<^verbatim>\<open>encodeURIComponent\<close>, which raises a URIError on a string that is not
  well-formed. They are parameters of the model: what is proved holds whatever these
  functions compute.
\<close>

record engine =
  num_to_string :: "rat \<Rightarrow> string"
  to_lower :: "string \<Rightarrow> string"
  encode_uri :: "string \<Rightarrow> error + string"

text \<open>
  \<^verbatim>\<open>x.toLowerCase()\<close>: only a string has the method; calling it on anything else is a
  TypeError (\<^verbatim>\<open>... is not a function\<close>).
\<close>

fun toLowerCase :: "engine \<Rightarrow> json \<Rightarrow> error + string" where
  "toLowerCase g (JStr s) = Inr (to_lower g s)"
| "toLowerCase g v = Inl TypeError"

text \<open>
  The string a template literal \<^verbatim>\<open>`${v}`\<close> puts in for \<open>v\<close>. An array is its elements
  joined by commas, \<^verbatim>\<open>null\<close> and \<^verbatim>\<open>undefined\<close> elements being empty; an object is
  \<^verbatim>\<open>[object Object]\<close>, unless it has a property \<^verbatim>\<open>toString\<close> of its own, which
  parsed from JSON is never a function, and then the conversion is a TypeError.
\<close>

fun to_str :: "engine \<Rightarrow> json \<Rightarrow> error + string"
  and join_str :: "engine \<Rightarrow> json list \<Rightarrow> error + string" where
  "to_str g JUndef = Inr ''undefined''"
| "to_str g JNull = Inr ''null''"
| "to_str g (JBool b) = Inr (if b then ''true'' else ''false'')"
| "to_str g (JNum n) = Inr (num_to_string g n)"
| "to_str g (JStr s) = Inr s"
| "to_str g (JArr xs) = join_str g xs"
| "to_str g (JObj kvs) =
     (if map_of kvs ''toString'' \<noteq> None then Inl TypeError else Inr ''[object Object]'')"
| "join_str g [] = Inr []"
| "join_str g (x # xs) =
     (case (if nullish x then Inr [] else to_str g x) of
        Inl e \<Rightarrow> Inl e
      | Inr a \<Rightarrow>
          if xs = [] then Inr a
          else (case join_str g xs of Inl e \<Rightarrow> Inl e | Inr b \<Rightarrow> Inr (a @ '','' @ b)))"

subsection \<open>The extraction functions\<close>

text \<open>
  \<^verbatim>\<open>normalizeOrder\<close>: the body of its \<^verbatim>\<open>try\<close>, where \<^verbatim>\<open>order.x\<close> raises on an
  order that is \<^verbatim>\<open>null\<close> or \<^verbatim>\<open>undefined\<close>, and the function with its \<^verbatim>\<open>catch\<close>.
  The result is the tuple \<open>(protocol, maker, orderHash, price)\<close>.
\<close>

type_synonym normalized = "json \<times> json \<times> json \<times> json"

definition normalizeOrder_try :: "json \<Rightarrow> error + normalized" where
  "normalizeOrder_try order =
     (case or_r (get order ''protocol_data'')
             (or_r (get order ''protocolData'')
             (or_r (get order ''protocol'') (Inr JNull))) of
        Inl e \<Rightarrow> Inl e
      | Inr protocol \<Rightarrow>
     (case or_r (get order ''maker'') (or_r (get order ''maker_address'') (Inr (JObj []))) of
        Inl e \<Rightarrow> Inl e
      | Inr maker \<Rightarrow>
     (case or_r (get order ''order_hash'') (or_r (get order ''hash'') (Inr JNull)) of
        Inl e \<Rightarrow> Inl e
      | Inr orderHash \<Rightarrow>
     (case or_r (case get order ''price'' of Inl e \<Rightarrow> Inl e
                 | Inr p \<Rightarrow> Inr (oget (oget p ''current'') ''value''))
             (or_r (case get order ''price'' of Inl e \<Rightarrow> Inl e | Inr p \<Rightarrow> Inr (oget p ''value''))
             (or_r (get order ''current_price'')
             (or_r (get order ''starting_price'') (Inr JNull)))) of
        Inl e \<Rightarrow> Inl e
      | Inr price \<Rightarrow> Inr (protocol, maker, orderHash, price)))))"

definition normalizeOrder :: "json \<Rightarrow> normalized" where
  "normalizeOrder order =
     (case normalizeOrder_try order of
        Inr r \<Rightarrow> r
      | Inl e \<Rightarrow> (JNull, JObj [], JNull, JNull))"

text \<open>
  \<^verbatim>\<open>extractNftMeta\<close>, \<^verbatim>\<open>extractTokenId\<close>, \<^verbatim>\<open>extractImage\<close>: chains of \<^verbatim>\<open>?.\<close>
  reads joined by \<^verbatim>\<open>||\<close>. The one plain read, \<^verbatim>\<open>ord.assets[0]\<close>, stands behind the
  test \<^verbatim>\<open>ord?.assets ?\<close>, so neither \<^verbatim>\<open>ord\<close> nor \<^verbatim>\<open>ord.assets\<close> is
  \<^verbatim>\<open>null\<close> or \<^verbatim>\<open>undefined\<close> where it is evaluated.
\<close>

definition extractNftMeta :: "json \<Rightarrow> json" where
  "extractNftMeta ord =
     or_else (oget (oget ord ''criteria'') ''metadata'')
    (or_else (oget ord ''asset'')
    (or_else (if truthy (oget ord ''assets'') then idx0 (getprop ord ''assets'') else JNull)
    (or_else (oget ord ''item'')
    (or_else (oidx0 (oget ord ''items''))
     JNull))))"

definition extractTokenId :: "json \<Rightarrow> json" where
  "extractTokenId nftMeta =
     or_else (oget nftMeta ''identifier'')
    (or_else (oget nftMeta ''token_id'')
    (or_else (oget nftMeta ''tokenId'')
    (or_else (oget nftMeta ''id'')
     JNull)))"

definition extractImage :: "json \<Rightarrow> json" where
  "extractImage nftMeta =
     or_else (oget nftMeta ''image_url'')
    (or_else (oget nftMeta ''image'')
    (or_else (oget nftMeta ''thumbnail'')
    (or_else (oget (oget nftMeta ''metadata'') ''image'')
     JNull)))"

subsection \<open>From an order to the payload\<close>

text \<open>
  The payload the loop of \<^verbatim>\<open>main\<close> posts. \<open>image_f\<close> is the field \<^verbatim>\<open>image\<close>;
  \<open>marketplaceContract\<close> is the setting \<^verbatim>\<open>PROXY_CONTRACT_ADDRESS\<close>, which may be unset.
\<close>

record payload =
  tokenId :: json
  price :: json
  sellerAddress :: string
  seaportOrder :: json
  orderHash :: json
  image_f :: json
  marketplaceContract :: "string option"

text \<open>
  The template literal of the payload's \<^verbatim>\<open>orderHash\<close>:
  \<^verbatim>\<open>`${tokenId}-${maker?.address || "unknown"}`\<close>.
\<close>

definition hash_template :: "engine \<Rightarrow> json \<Rightarrow> json \<Rightarrow> error + json" where
  "hash_template g tok mk =
     (case to_str g tok of
        Inl e \<Rightarrow> Inl e
      | Inr t \<Rightarrow>
          (case to_str g (or_else (oget mk ''address'') (JStr ''unknown'')) of
             Inl e \<Rightarrow> Inl e
           | Inr a \<Rightarrow> Inr (JStr (t @ ''-'' @ a))))"

text \<open>
  What the body of the \<^verbatim>\<open>for\<close> loop of \<^verbatim>\<open>main\<close> computes from one order before it
  touches a counter: \<open>Inr None\<close> is \<^verbatim>\<open>continue\<close> (the order is skipped), \<open>Inr (Some p)\<close>
  the payload, \<open>Inl e\<close> an exception, which nothing in \<^verbatim>\<open>main\<close> catches. The fields
  of the object literal are evaluated in the order they are written.
\<close>

definition build_payload ::
  "engine \<Rightarrow> string option \<Rightarrow> json \<Rightarrow> error + payload option" where
  "build_payload g proxy ord =
     (let nftMeta = extractNftMeta ord in
      if \<not> truthy nftMeta then Inr None
      else
        let tok = extractTokenId nftMeta;
            img = extractImage nftMeta
        in
        if \<not> truthy tok then Inr None
        else
          (case normalizeOrder ord of
             (protocol, mk, oh, pr) \<Rightarrow>
               (case toLowerCase g (or_else (oget mk ''address'') (or_else mk (JStr ''unknown''))) of
                  Inl e \<Rightarrow> Inl e
                | Inr seller \<Rightarrow>
                    (case (if truthy oh then Inr oh else hash_template g tok mk) of
                       Inl e \<Rightarrow> Inl e
                     | Inr h \<Rightarrow>
                         Inr (Some \<lparr>tokenId = tok,
                                    price = (if nullish pr then JNum 0 else pr),
                                    sellerAddress = seller,
                                    seaportOrder = or_else protocol ord,
                                    orderHash = h,
                                    image_f = or_else img JNull,
                                    marketplaceContract = proxy\<rparr>)))))"

subsection \<open>The two services, and the calls to them\<close>

text \<open>
  What a call of \<^verbatim>\<open>fetch\<close> comes to: the promise rejects (\<open>NetFail\<close>), or there is a
  response with its \<^verbatim>\<open>ok\<close> flag and its body, \<open>None\<close> when the body is not JSON, so
  that \<^verbatim>\<open>res.json()\<close> rejects. A service answers the n-th call it receives, given what
  the call sends: the marketplace the cursor of the query, the backend the payload.
\<close>

datatype response = NetFail | Http bool "json option"

record env =
  upstream :: "nat \<Rightarrow> string option \<Rightarrow> response"
  backend :: "nat \<Rightarrow> payload \<Rightarrow> response"

text \<open>
  The variables of \<^verbatim>\<open>main\<close>, with the log of the calls made so far: the cursor of
  every \<^verbatim>\<open>fetch\<close> of the marketplace and the payload of every \<^verbatim>\<open>fetch\<close> of the backend.
\<close>

record state =
  cursor :: json
  totalScanned :: nat
  totalSent :: nat
  fetchLog :: "string option list"
  postLog :: "payload list"

text \<open>
  \<^verbatim>\<open>fetchOrders\<close>: the cursor goes into the query when it is truthy, as a string
  put through \<^verbatim>\<open>encodeURIComponent\<close>; the conversion to a string and the encoding
  can each raise. A rejected \<^verbatim>\<open>fetch\<close> and a rejected \<^verbatim>\<open>res.json()\<close> are not caught here.
\<close>

definition cursor_query :: "engine \<Rightarrow> json \<Rightarrow> error + string option" where
  "cursor_query g c =
     (if truthy c
      then (case to_str g c of
              Inl err \<Rightarrow> Inl err
            | Inr t \<Rightarrow> (case encode_uri g t of Inl err \<Rightarrow> Inl err | Inr u \<Rightarrow> Inr (Some u)))
      else Inr None)"

definition fetchOrders ::
  "engine \<Rightarrow> env \<Rightarrow> json \<Rightarrow> state \<Rightarrow> (error + json) \<times> state" where
  "fetchOrders g e c s =
     (case cursor_query g c of
        Inl err \<Rightarrow> (Inl err, s)
      | Inr q \<Rightarrow>
          (let s' = s\<lparr>fetchLog := fetchLog s @ [q]\<rparr> in
           case upstream e (length (fetchLog s)) q of
             NetFail \<Rightarrow> (Inl NetworkError, s')
           | Http ok body \<Rightarrow>
               if \<not> ok then (Inr JNull, s')
               else (case body of
                       None \<Rightarrow> (Inl SyntaxError, s')
                     | Some j \<Rightarrow> (Inr j, s'))))"

text \<open>
  \<^verbatim>\<open>postOrderToBackend\<close>: everything is inside a \<^verbatim>\<open>try\<close>, and a body that is not
  JSON reads as \<^verbatim>\<open>null\<close>.
\<close>

definition postOrderToBackend :: "env \<Rightarrow> payload \<Rightarrow> state \<Rightarrow> bool \<times> state" where
  "postOrderToBackend e p s =
     (let s' = s\<lparr>postLog := postLog s @ [p]\<rparr> in
      case backend e (length (postLog s)) p of
        NetFail \<Rightarrow> (False, s')
      | Http ok body \<Rightarrow>
          if \<not> ok then (False, s')
          else
            (let data = (case body of None \<Rightarrow> JNull | Some j \<Rightarrow> j) in
             if \<not> truthy (oget data ''success'') then (False, s') else (True, s')))"

subsection \<open>The loops of \<^verbatim>\<open>main\<close>\<close>

text \<open>
  One pass of the \<^verbatim>\<open>for\<close> loop's body. An exception leaves the loop, and
  \<^verbatim>\<open>main\<close>, with the state as it was.
\<close>

definition loop_body ::
  "engine \<Rightarrow> string option \<Rightarrow> env \<Rightarrow> json \<Rightarrow> state \<Rightarrow> (error \<times> state) + state" where
  "loop_body g proxy e ord s =
     (case build_payload g proxy ord of
        Inl err \<Rightarrow> Inl (err, s)
      | Inr None \<Rightarrow> Inr s
      | Inr (Some p) \<Rightarrow>
          (let s1 = s\<lparr>totalScanned := totalScanned s + 1\<rparr> in
           case postOrderToBackend e p s1 of
             (ok, s2) \<Rightarrow> Inr (if ok then s2\<lparr>totalSent := totalSent s2 + 1\<rparr> else s2)))"

fun for_orders ::
  "engine \<Rightarrow> string option \<Rightarrow> env \<Rightarrow> json list \<Rightarrow> state \<Rightarrow> (error \<times> state) + state" where
  "for_orders g proxy e [] s = Inr s"
| "for_orders g proxy e (ord # ords) s =
     (case loop_body g proxy e ord s of
        Inl x \<Rightarrow> Inl x
      | Inr s' \<Rightarrow> for_orders g proxy e ords s')"

text \<open>
  What \<^verbatim>\<open>for (const ord of v)\<close> runs over: the elements of an array, the characters
  of a string; any other value is not iterable, a TypeError.
\<close>

fun iterate :: "json \<Rightarrow> error + json list" where
  "iterate (JArr xs) = Inr xs"
| "iterate (JStr s) = Inr (map (\<lambda>c. JStr [c]) s)"
| "iterate v = Inl TypeError"

text \<open>
  How a run ends: \<^verbatim>\<open>main\<close> returns after printing the two counters, or an exception
  reaches \<^verbatim>\<open>main().catch\<close> and the process exits with 1. The \<^verbatim>\<open>while (true)\<close> loop
  need not end, so the model counts its rounds down from a bound, and \<open>Running\<close> is a
  run that has not ended within the bound, with the state it has reached.
\<close>

datatype outcome = Finished state | Fatal error state | Running state

fun final :: "outcome \<Rightarrow> state" where
  "final (Finished s) = s"
| "final (Fatal err s) = s"
| "final (Running s) = s"

fun main_loop :: "engine \<Rightarrow> string option \<Rightarrow> env \<Rightarrow> nat \<Rightarrow> state \<Rightarrow> outcome" where
  "main_loop g proxy e 0 s = Running s"
| "main_loop g proxy e (Suc k) s =
     (case fetchOrders g e (cursor s) s of
        (Inl err, s1) \<Rightarrow> Fatal err s1
      | (Inr data, s1) \<Rightarrow>
          if \<not> truthy (oget (oget data ''orders'') ''length'') then Finished s1
          else
            (case iterate (getprop data ''orders'') of
               Inl err \<Rightarrow> Fatal err s1
             | Inr ords \<Rightarrow>
                 (case for_orders g proxy e ords s1 of
                    Inl (err, s2) \<Rightarrow> Fatal err s2
                  | Inr s2 \<Rightarrow>
                      (let s3 = s2\<lparr>cursor := or_else (getprop data ''next'')
                                              (or_else (getprop data ''cursor'') JNull)\<rparr> in
                       if \<not> truthy (cursor s3) then Finished s3
                       else main_loop g proxy e k s3))))"

definition init :: state where
  "init = \<lparr>cursor = JNull, totalScanned = 0, totalSent = 0, fetchLog = [], postLog = []\<rparr>"

definition main :: "engine \<Rightarrow> string option \<Rightarrow> env \<Rightarrow> nat \<Rightarrow> outcome" where
  "main g proxy e k = main_loop g proxy e k init"

subsection \<open>Vocabulary of the specification\<close>

text \<open>
  The specification's first-match-wins combinator: the first truthy value of a list of
  candidates, \<^verbatim>\<open>null\<close> when there is none.
\<close>

definition first_truthy :: "json list \<Rightarrow> json" where
  "first_truthy vs = (case find truthy vs of Some v \<Rightarrow> v | None \<Rightarrow> JNull)"

text \<open>
  The five places where the token's description may stand in an order, and the four
  names under which it may carry the token's identifier, in the order they are tried.
\<close>

definition meta_locations :: "json \<Rightarrow> json list" where
  "meta_locations ord =
     [oget (oget ord ''criteria'') ''metadata'', oget ord ''asset'', oidx0 (oget ord ''assets''),
      oget ord ''item'', oidx0 (oget ord ''items'')]"

definition token_keys :: "string list" where
  "token_keys = [''identifier'', ''token_id'', ''tokenId'', ''id'']"

text \<open>The maker and the order hash that \<^verbatim>\<open>normalizeOrder\<close> resolves.\<close>

definition maker_of :: "json \<Rightarrow> json" where
  "maker_of ord = fst (snd (normalizeOrder ord))"

definition hash_of :: "json \<Rightarrow> json" where
  "hash_of ord = fst (snd (snd (normalizeOrder ord)))"

text \<open>
  The answers of the backend that the specification counts as failures: a transport
  error, a status that is not a success, a body that does not parse, a body without a
  truthy \<^verbatim>\<open>success\<close>.
\<close>

fun failed :: "response \<Rightarrow> bool" where
  "failed NetFail = True"
| "failed (Http ok body) =
     (\<not> ok \<or> (case body of None \<Rightarrow> True | Some j \<Rightarrow> \<not> truthy (oget j ''success'')))"

text \<open>The state in which a pass of the loop body leaves \<^verbatim>\<open>main\<close>, however it ends.\<close>

fun after :: "(error \<times> state) + state \<Rightarrow> state" where
  "after (Inl (err, s)) = s"
| "after (Inr s) = s"

text \<open>
  A marketplace that answers its n-th call with the n-th page of a list, and a failure
  status once the list is used up; a backend that accepts everything.
\<close>

definition serve :: "json list \<Rightarrow> nat \<Rightarrow> string option \<Rightarrow> response" where
  "serve pages n q = (if n < length pages then Http True (Some (pages ! n)) else Http False None)"

definition accepts :: "nat \<Rightarrow> payload \<Rightarrow> response" where
  "accepts n p = Http True (Some (JObj [(''success'', JBool True)]))"

text \<open>
  The next-cursor of a page, and the cursor parameter of the query that a cursor
  becomes (none for a falsy cursor).
\<close>

definition page_cursor :: "json \<Rightarrow> json" where
  "page_cursor p = or_else (getprop p ''next'') (or_else (getprop p ''cursor'') JNull)"

definition query_of :: "engine \<Rightarrow> json \<Rightarrow> string option" where
  "query_of g c = (case cursor_query g c of Inl err \<Rightarrow> None | Inr q \<Rightarrow> q)"

text \<open>
  A page whose \<^verbatim>\<open>orders\<close> are an array of orders none of which makes the construction
  of its payload raise; and a page that, besides, has at least one order and a truthy
  next-cursor that can be written into a query: neither its conversion to a string nor
  \<^verbatim>\<open>encodeURIComponent\<close> raises on it.
\<close>

definition page_ok :: "engine \<Rightarrow> string option \<Rightarrow> json \<Rightarrow> bool" where
  "page_ok g proxy p =
     (case getprop p ''orders'' of
        JArr ords \<Rightarrow> list_all (\<lambda>ord. \<not> isl (build_payload g proxy ord)) ords
      | _ \<Rightarrow> False)"

definition inner_ok :: "engine \<Rightarrow> string option \<Rightarrow> json \<Rightarrow> bool" where
  "inner_ok g proxy p =
     (page_ok g proxy p \<and> getprop p ''orders'' \<noteq> JArr [] \<and> truthy (page_cursor p)
      \<and> \<not> isl (cursor_query g (page_cursor p)))"

subsection \<open>A sample engine\<close>

text \<open>
  The closed examples below need an engine. This one computes what JavaScript computes
  on the values that occur in them: it puts the letters A to Z into lower case and leaves
  every other character alone, as \<^verbatim>\<open>toLowerCase\<close> does on a string of ASCII
  characters; it writes an integer in decimal digits, as JavaScript does for the
  integers of at most sixteen digits that it can hold exactly; and it encodes a string by leaving it as it is, as
  \<^verbatim>\<open>encodeURIComponent\<close> does on letters and digits.
\<close>

definition lower_char :: "char \<Rightarrow> char" where
  "lower_char c =
     (let n = (of_char c :: nat) in if 65 \<le> n \<and> n \<le> 90 then char_of (n + 32) else c)"

definition digit_char :: "nat \<Rightarrow> char" where
  "digit_char d = char_of (48 + d)"

fun digits :: "nat \<Rightarrow> string" where
  "digits n = (if n < 10 then [digit_char n] else digits (n div 10) @ [digit_char (n mod 10)])"

declare digits.simps [simp del]

definition show_int :: "int \<Rightarrow> string" where
  "show_int i = (if i < 0 then CHR ''-'' # digits (nat (- i)) else digits (nat i))"

definition ascii_engine :: engine where
  "ascii_engine =
     \<lparr>num_to_string = (\<lambda>r. show_int \<lfloor>r\<rfloor>),
      to_lower = map lower_char,
      encode_uri = Inr\<rparr>"

subsection \<open>Sample orders\<close>

text \<open>
  An order with a token and a maker whose address has capital letters, with the payload
  built from it under the sample engine; and an order whose token description has no
  identifier.
\<close>

definition order_listed :: json where
  "order_listed =
     JObj [(''asset'', JObj [(''identifier'', JStr ''1'')]),
           (''maker'', JObj [(''address'', JStr ''0xABC'')])]"

definition payload_listed :: payload where
  "payload_listed =
     \<lparr>tokenId = JStr ''1'', price = JNum 0, sellerAddress = ''0xabc'',
      seaportOrder = order_listed, orderHash = JStr ''1-0xABC'', image_f = JNull,
      marketplaceContract = None\<rparr>"

definition order_no_token :: json where
  "order_no_token = JObj [(''asset'', JObj [(''name'', JStr ''ape'')])]"

section \<open>Properties\<close>

subsection \<open>Values and extraction\<close>

lemma truthy_not_nullish: "truthy v \<Longrightarrow> \<not> nullish v"
  by (cases v) auto

lemma extractNftMeta_nullish: "nullish ord \<Longrightarrow> extractNftMeta ord = JNull"
  by (simp add: extractNftMeta_def oget_def oidx0_def or_else_def)

lemma or_r_Inr: "or_r (Inr a) (Inr b) = Inr (or_else a b)"
  by (simp add: or_else_def)

text \<open>On an order that is an actual value the \<^verbatim>\<open>try\<close> of \<^verbatim>\<open>normalizeOrder\<close> never raises.\<close>

lemma normalizeOrder_try_total:
  "\<not> nullish order \<Longrightarrow>
     normalizeOrder_try order =
       Inr (or_else (getprop order ''protocol_data'')
              (or_else (getprop order ''protocolData'') (or_else (getprop order ''protocol'') JNull)),
            or_else (getprop order ''maker'') (or_else (getprop order ''maker_address'') (JObj [])),
            or_else (getprop order ''order_hash'') (or_else (getprop order ''hash'') JNull),
            or_else (oget (oget (getprop order ''price'') ''current'') ''value'')
              (or_else (oget (getprop order ''price'') ''value'')
                 (or_else (getprop order ''current_price'')
                    (or_else (getprop order ''starting_price'') JNull))))"
  by (simp add: normalizeOrder_try_def get_def or_r_Inr del: or_r.simps)

lemma normalizeOrder_nullish:
  "nullish order \<Longrightarrow> normalizeOrder order = (JNull, JObj [], JNull, JNull)"
  by (simp add: normalizeOrder_def normalizeOrder_try_def get_def)

lemma normalizeOrder_parts:
  "\<not> nullish order \<Longrightarrow>
     normalizeOrder order =
       (or_else (getprop order ''protocol_data'')
          (or_else (getprop order ''protocolData'') (or_else (getprop order ''protocol'') JNull)),
        or_else (getprop order ''maker'') (or_else (getprop order ''maker_address'') (JObj [])),
        or_else (getprop order ''order_hash'') (or_else (getprop order ''hash'') JNull),
        or_else (oget (oget (getprop order ''price'') ''current'') ''value'')
          (or_else (oget (getprop order ''price'') ''value'')
             (or_else (getprop order ''current_price'')
                (or_else (getprop order ''starting_price'') JNull))))"
  by (simp add: normalizeOrder_def normalizeOrder_try_total)

lemma hash_of_falsy:
  "\<not> truthy (oget ord ''order_hash'') \<Longrightarrow> \<not> truthy (oget ord ''hash'') \<Longrightarrow> \<not> truthy (hash_of ord)"
proof (cases "nullish ord")
  case True
  then show ?thesis by (simp add: hash_of_def normalizeOrder_nullish)
next
  case False
  assume "\<not> truthy (oget ord ''order_hash'')" "\<not> truthy (oget ord ''hash'')"
  with False show ?thesis
    by (simp add: hash_of_def normalizeOrder_parts oget_def or_else_def)
qed

lemma toLowerCase_Inr: "toLowerCase g v = Inr s \<Longrightarrow> \<exists>t. v = JStr t \<and> s = to_lower g t"
  by (cases v) auto

lemma first_truthy_Cons: "first_truthy (v # vs) = or_else v (first_truthy vs)"
  by (simp add: first_truthy_def or_else_def)

lemma first_truthy_Nil: "first_truthy [] = JNull"
  by (simp add: first_truthy_def)

lemma first_truthy_falsy: "(\<not> truthy (first_truthy vs)) = (\<forall>v \<in> set vs. \<not> truthy v)"
  by (induction vs) (auto simp: first_truthy_Cons first_truthy_Nil or_else_def)

lemma extractTokenId_first: "extractTokenId m = first_truthy (map (oget m) token_keys)"
  by (simp add: extractTokenId_def token_keys_def first_truthy_Cons first_truthy_Nil)

lemma falsy_idx0: "\<not> truthy v \<Longrightarrow> oidx0 v = JUndef"
  by (cases v) (auto simp: oidx0_def)

lemma extractNftMeta_first: "extractNftMeta ord = first_truthy (meta_locations ord)"
proof (cases "truthy (oget ord ''assets'')")
  case True
  then have "\<not> nullish ord" by (auto simp: oget_def)
  with True have "idx0 (getprop ord ''assets'') = oidx0 (oget ord ''assets'')"
    by (simp add: oget_def oidx0_def truthy_not_nullish)
  with True show ?thesis
    by (simp add: extractNftMeta_def meta_locations_def first_truthy_Cons first_truthy_Nil)
next
  case False
  then show ?thesis
    by (simp add: extractNftMeta_def meta_locations_def first_truthy_Cons first_truthy_Nil
        falsy_idx0 or_else_def)
qed

subsection \<open>Skipping\<close>

lemma skip_meta: "\<not> truthy (extractNftMeta ord) \<Longrightarrow> build_payload g proxy ord = Inr None"
  by (simp add: build_payload_def)

lemma skip_token:
  "\<not> truthy (extractTokenId (extractNftMeta ord)) \<Longrightarrow> build_payload g proxy ord = Inr None"
  by (simp add: build_payload_def Let_def)

lemma build_payload_not_skip:
  "truthy (extractNftMeta ord) \<Longrightarrow> truthy (extractTokenId (extractNftMeta ord)) \<Longrightarrow>
   build_payload g proxy ord \<noteq> Inr None"
  by (simp add: build_payload_def Let_def split: prod.splits sum.splits)

text \<open>
  Claim C6. An order in which none of the five places of the token's description holds
  a truthy value, or whose description holds no truthy value under any of the four
  identifier names, is skipped: the pass of the loop body ends normally and leaves the
  state as it was, so neither counter moves and no call to the backend is made.
\<close>

theorem skipped_order_leaves_state:
  assumes "(\<forall>v \<in> set (meta_locations ord). \<not> truthy v)
           \<or> (\<forall>k \<in> set token_keys. \<not> truthy (oget (extractNftMeta ord) k))"
  shows "loop_body g proxy e ord s = Inr s"
proof -
  from assms have "\<not> truthy (extractNftMeta ord) \<or> \<not> truthy (extractTokenId (extractNftMeta ord))"
    by (simp add: extractNftMeta_first extractTokenId_first first_truthy_falsy)
  then have "build_payload g proxy ord = Inr None"
    using skip_meta skip_token by blast
  then show ?thesis by (simp add: loop_body_def)
qed

theorem skipped_order_leaves_state_witness:
  "list_all (\<lambda>k. \<not> truthy (oget (extractNftMeta order_no_token) k)) token_keys
   \<and> loop_body ascii_engine None \<lparr>upstream = serve [], backend = accepts\<rparr> order_no_token init
       = Inr init"
proof -
  have h: "\<forall>k \<in> set token_keys. \<not> truthy (oget (extractNftMeta order_no_token) k)"
    by code_simp
  then have "(\<forall>v \<in> set (meta_locations order_no_token). \<not> truthy v)
           \<or> (\<forall>k \<in> set token_keys. \<not> truthy (oget (extractNftMeta order_no_token) k))"
    by (rule disjI2)
  from skipped_order_leaves_state [OF this] h show ?thesis by (simp add: list_all_iff)
qed

subsection \<open>Forwarding\<close>

lemma post_result: "fst (postOrderToBackend e p s) = (\<not> failed (backend e (length (postLog s)) p))"
  by (simp add: postOrderToBackend_def Let_def oget_def split: response.splits option.splits)

lemma post_state: "snd (postOrderToBackend e p s) = s\<lparr>postLog := postLog s @ [p]\<rparr>"
  by (simp add: postOrderToBackend_def Let_def split: response.splits option.splits)

lemma loop_body_payload:
  assumes n: "build_payload g proxy ord = Inr (Some p)"
  shows "loop_body g proxy e ord s =
     Inr (if failed (backend e (length (postLog s)) p)
          then s\<lparr>totalScanned := totalScanned s + 1, postLog := postLog s @ [p]\<rparr>
          else s\<lparr>totalScanned := totalScanned s + 1, postLog := postLog s @ [p],
                 totalSent := totalSent s + 1\<rparr>)"
proof -
  let ?s1 = "s\<lparr>totalScanned := totalScanned s + 1\<rparr>"
  have "postOrderToBackend e p ?s1 =
          (\<not> failed (backend e (length (postLog s)) p), ?s1\<lparr>postLog := postLog s @ [p]\<rparr>)"
    using post_result [of e p ?s1] post_state [of e p ?s1]
    by (cases "postOrderToBackend e p ?s1") simp
  with n show ?thesis by (simp add: loop_body_def)
qed



lemma loop_body_raises: "isl (loop_body g proxy e ord s) = isl (build_payload g proxy ord)"
proof (cases "build_payload g proxy ord")
  case (Inl err)
  then show ?thesis by (simp add: loop_body_def)
next
  case (Inr r)
  show ?thesis
  proof (cases r)
    case None
    with Inr show ?thesis by (simp add: loop_body_def)
  next
    case (Some p)
    with Inr show ?thesis by (simp add: loop_body_payload)
  qed
qed

subsection \<open>The counters\<close>

lemma loop_body_counters:
  "totalScanned s \<le> totalScanned (after (loop_body g proxy e ord s)) \<and>
   totalSent s \<le> totalSent (after (loop_body g proxy e ord s)) \<and>
   totalSent (after (loop_body g proxy e ord s)) + totalScanned s
     \<le> totalSent s + totalScanned (after (loop_body g proxy e ord s))"
proof (cases "build_payload g proxy ord")
  case (Inl err)
  then show ?thesis by (simp add: loop_body_def)
next
  case (Inr r)
  show ?thesis
  proof (cases r)
    case None
    with Inr show ?thesis by (simp add: loop_body_def)
  next
    case (Some p)
    with Inr show ?thesis by (simp add: loop_body_payload)
  qed
qed

lemma for_orders_counters:
  "totalSent s \<le> totalScanned s \<Longrightarrow>
   totalSent (after (for_orders g proxy e ords s))
     \<le> totalScanned (after (for_orders g proxy e ords s))"
proof (induction ords arbitrary: s)
  case Nil
  then show ?case by simp
next
  case (Cons ord ords)
  show ?case
  proof (cases "loop_body g proxy e ord s")
    case (Inl x)
    with loop_body_counters [of s g proxy e ord] Cons.prems show ?thesis by simp
  next
    case (Inr s')
    with loop_body_counters [of s g proxy e ord] Cons.prems have "totalSent s' \<le> totalScanned s'"
      by simp
    from Cons.IH [OF this] Inr show ?thesis by simp
  qed
qed

lemma fetchOrders_counters:
  "totalSent (snd (fetchOrders g e c s)) = totalSent s \<and>
   totalScanned (snd (fetchOrders g e c s)) = totalScanned s"
  by (simp add: fetchOrders_def Let_def split: sum.splits response.splits option.splits)

lemma main_loop_counters:
  "totalSent s \<le> totalScanned s \<Longrightarrow>
   totalSent (final (main_loop g proxy e k s)) \<le> totalScanned (final (main_loop g proxy e k s))"
proof (induction k arbitrary: s)
  case 0
  then show ?case by simp
next
  case (Suc k)
  obtain r s1 where f: "fetchOrders g e (cursor s) s = (r, s1)"
    by (cases "fetchOrders g e (cursor s) s")
  with fetchOrders_counters [of g e "cursor s" s] Suc.prems
  have s1: "totalSent s1 \<le> totalScanned s1"
    by simp
  show ?case
  proof (cases r)
    case (Inl err)
    with f s1 show ?thesis by simp
  next
    case (Inr data)
    show ?thesis
    proof (cases "truthy (oget (oget data ''orders'') ''length'')")
      case False
      with f Inr s1 show ?thesis by simp
    next
      case True
      show ?thesis
      proof (cases "iterate (getprop data ''orders'')")
        case (Inl err)
        with f Inr True s1 show ?thesis by simp
      next
        case ords: (Inr ords)
        from for_orders_counters [OF s1, of g proxy e ords]
        have inv2: "totalSent (after (for_orders g proxy e ords s1))
                      \<le> totalScanned (after (for_orders g proxy e ords s1))" .
        show ?thesis
        proof (cases "for_orders g proxy e ords s1")
          case (Inl x)
          with f Inr True ords inv2 show ?thesis by (cases x) simp
        next
          case s2: (Inr s2)
          let ?s3 = "s2\<lparr>cursor := or_else (getprop data ''next'')
                                    (or_else (getprop data ''cursor'') JNull)\<rparr>"
          from inv2 s2 have "totalSent ?s3 \<le> totalScanned ?s3" by simp
          from Suc.IH [OF this] inv2 s2 f Inr True ords show ?thesis
            by (simp add: Let_def)
        qed
      qed
    qed
  qed
qed

text \<open>
  Claim C10. However a run ends, and wherever it stands when the bound on the rounds of
  the \<^verbatim>\<open>while\<close> loop cuts it off, \<^verbatim>\<open>totalSent\<close> is at most \<^verbatim>\<open>totalScanned\<close> (both are
  natural numbers, so neither is below zero). And in every pass of the loop body, from
  any state, neither counter goes down and \<^verbatim>\<open>totalSent\<close> goes up by no more than
  \<^verbatim>\<open>totalScanned\<close> does in that pass.
\<close>

theorem sent_at_most_scanned:
  "totalSent (final (main g proxy e k)) \<le> totalScanned (final (main g proxy e k))
   \<and> totalScanned s \<le> totalScanned (after (loop_body g proxy e ord s))
   \<and> totalSent s \<le> totalSent (after (loop_body g proxy e ord s))
   \<and> totalSent (after (loop_body g proxy e ord s)) + totalScanned s
       \<le> totalSent s + totalScanned (after (loop_body g proxy e ord s))"
proof -
  have "totalSent init \<le> totalScanned init" by (simp add: init_def)
  from main_loop_counters [OF this]
  have "totalSent (final (main g proxy e k)) \<le> totalScanned (final (main g proxy e k))"
    by (simp add: main_def)
  with loop_body_counters [of s g proxy e ord] show ?thesis by blast
qed

subsection \<open>The token identifier\<close>

text \<open>
  Claim C5, as the code has it. \<^verbatim>\<open>extractTokenId\<close> tries \<^verbatim>\<open>identifier\<close>,
  \<^verbatim>\<open>token_id\<close>, \<^verbatim>\<open>tokenId\<close>, \<^verbatim>\<open>id\<close> in that order and returns the first value that
  is truthy, \<^verbatim>\<open>null\<close> when none is. An order whose token description was found is
  skipped exactly when all four values are falsy: absent, \<^verbatim>\<open>null\<close>, \<^verbatim>\<open>false\<close>,
  \<^verbatim>\<open>0\<close> or the empty string.
\<close>

theorem tokenId_first_truthy:
  "extractTokenId m = first_truthy (map (oget m) token_keys)
   \<and> (truthy (extractNftMeta ord) \<longrightarrow>
        (build_payload g proxy ord = Inr None) =
        (\<forall>k \<in> set token_keys. \<not> truthy (oget (extractNftMeta ord) k)))"
proof (intro conjI impI)
  show "extractTokenId m = first_truthy (map (oget m) token_keys)"
    by (rule extractTokenId_first)
next
  assume m: "truthy (extractNftMeta ord)"
  have "(build_payload g proxy ord = Inr None) = (\<not> truthy (extractTokenId (extractNftMeta ord)))"
    using build_payload_not_skip [OF m, of g proxy] skip_token [of ord g proxy] by blast
  also have "\<dots> = (\<forall>v \<in> set (map (oget (extractNftMeta ord)) token_keys). \<not> truthy v)"
    unfolding extractTokenId_first first_truthy_falsy ..
  also have "\<dots> = (\<forall>k \<in> set token_keys. \<not> truthy (oget (extractNftMeta ord) k))"
    by simp
  finally show "(build_payload g proxy ord = Inr None) =
        (\<forall>k \<in> set token_keys. \<not> truthy (oget (extractNftMeta ord) k))" .
qed

theorem tokenId_first_truthy_witness:
  "truthy (extractNftMeta order_no_token)
   \<and> build_payload ascii_engine None order_no_token = Inr None
   \<and> extractTokenId (JObj [(''identifier'', JNum 0), (''token_id'', JStr ''5''), (''id'', JStr ''6'')])
       = JStr ''5''"
proof -
  let ?m = "JObj [(''identifier'', JNum 0), (''token_id'', JStr ''5''), (''id'', JStr ''6'')]"
  have t: "truthy (extractNftMeta order_no_token)"
    by code_simp
  have f: "\<forall>k \<in> set token_keys. \<not> truthy (oget (extractNftMeta order_no_token) k)"
    by code_simp
  have v: "first_truthy (map (oget ?m) token_keys) = JStr ''5''"
    by code_simp
  from tokenId_first_truthy [of ?m order_no_token ascii_engine None] t f v show ?thesis by simp
qed

text \<open>
  The claim as it was stated fails: an identifier that is \<^verbatim>\<open>0\<close> or the empty string
  is not \<^verbatim>\<open>null\<close>, yet it does not count, and the order is skipped.
\<close>

theorem tokenId_zero_skipped:
  "extractTokenId (JObj [(''identifier'', JNum 0)]) = JNull
   \<and> build_payload ascii_engine None
        (JObj [(''asset'', JObj [(''identifier'', JNum 0)]),
               (''maker'', JObj [(''address'', JStr ''0xabc'')])]) = Inr None
   \<and> build_payload ascii_engine None
        (JObj [(''asset'', JObj [(''identifier'', JStr [])]),
               (''maker'', JObj [(''address'', JStr ''0xabc'')])]) = Inr None"
  by code_simp
subsection \<open>The synthesized order hash\<close>

text \<open>
  Claim C4, as the code has it. When a payload is built for an order whose
  \<^verbatim>\<open>order_hash\<close> and \<^verbatim>\<open>hash\<close> are both falsy and whose maker has a truthy
  \<^verbatim>\<open>address\<close>, that address is a string, the payload's \<^verbatim>\<open>orderHash\<close> is the string
  of the token identifier, a hyphen, and the address exactly as the marketplace wrote it,
  and the payload's \<^verbatim>\<open>sellerAddress\<close> is what \<^verbatim>\<open>toLowerCase\<close> makes of that address.
\<close>

theorem synthesized_orderHash:
  assumes built: "build_payload g proxy ord = Inr (Some p)"
    and no_order_hash: "\<not> truthy (oget ord ''order_hash'')"
    and no_hash: "\<not> truthy (oget ord ''hash'')"
    and address: "truthy (oget (maker_of ord) ''address'')"
  shows "\<exists>t x. to_str g (tokenId p) = Inr t \<and> oget (maker_of ord) ''address'' = JStr x
           \<and> sellerAddress p = to_lower g x \<and> orderHash p = JStr (t @ ''-'' @ x)"
proof -
  obtain protocol mk oh pr where n: "normalizeOrder ord = (protocol, mk, oh, pr)"
    by (cases "normalizeOrder ord") auto
  have mk: "maker_of ord = mk" and oh: "hash_of ord = oh"
    by (simp_all add: maker_of_def hash_of_def n)
  have falsy: "\<not> truthy oh"
    using hash_of_falsy [OF no_order_hash no_hash] oh by simp
  from address mk have a: "truthy (oget mk ''address'')" by simp
  let ?tok = "extractTokenId (extractNftMeta ord)"
  from built n falsy a obtain seller h where
    seller: "toLowerCase g (oget mk ''address'') = Inr seller" and
    h: "hash_template g ?tok mk = Inr h" and
    p: "tokenId p = ?tok" "sellerAddress p = seller" "orderHash p = h"
    by (auto simp: build_payload_def Let_def or_else_def split: if_splits sum.splits)
  from seller obtain x where x: "oget mk ''address'' = JStr x" "seller = to_lower g x"
    using toLowerCase_Inr by blast
  from h a x obtain t where t: "to_str g ?tok = Inr t" and ht: "h = JStr (t @ ''-'' @ x)"
    by (auto simp: hash_template_def or_else_def split: sum.splits)
  from t ht p x mk show ?thesis by simp
qed

theorem synthesized_orderHash_witness:
  "build_payload ascii_engine None order_listed = Inr (Some payload_listed)
   \<and> \<not> truthy (oget order_listed ''order_hash'') \<and> \<not> truthy (oget order_listed ''hash'')
   \<and> truthy (oget (maker_of order_listed) ''address'')
   \<and> (\<exists>t x. to_str ascii_engine (tokenId payload_listed) = Inr t
          \<and> oget (maker_of order_listed) ''address'' = JStr x
          \<and> sellerAddress payload_listed = to_lower ascii_engine x
          \<and> orderHash payload_listed = JStr (t @ ''-'' @ x))"
proof -
  have a: "build_payload ascii_engine None order_listed = Inr (Some payload_listed)"
    by code_simp
  have b: "\<not> truthy (oget order_listed ''order_hash'')"
    by code_simp
  have c: "\<not> truthy (oget order_listed ''hash'')"
    by code_simp
  have d: "truthy (oget (maker_of order_listed) ''address'')"
    by code_simp
  from synthesized_orderHash [OF a b c d] a b c d show ?thesis by blast
qed

text \<open>
  The claim as it was stated fails: the hash is built from the address as written, not
  from the \<^verbatim>\<open>sellerAddress\<close> of the payload, which is in lower case.
\<close>

theorem orderHash_keeps_case:
  "build_payload ascii_engine None
     (JObj [(''asset'', JObj [(''identifier'', JStr ''1'')]),
            (''maker'', JObj [(''address'', JStr ''0xABC'')])])
   = Inr (Some \<lparr>tokenId = JStr ''1'', price = JNum 0, sellerAddress = ''0xabc'',
                seaportOrder =
                  JObj [(''asset'', JObj [(''identifier'', JStr ''1'')]),
                        (''maker'', JObj [(''address'', JStr ''0xABC'')])],
                orderHash = JStr ''1-0xABC'', image_f = JNull, marketplaceContract = None\<rparr>)
   \<and> JStr ''1-0xABC'' \<noteq> JStr (''1'' @ ''-'' @ ''0xabc'')"
  by code_simp

subsection \<open>Pagination\<close>

lemma fetchOrders_page:
  assumes "\<not> isl (cursor_query g c)"
    and "upstream e (length (fetchLog s)) (query_of g c) = Http True (Some j)"
  shows "fetchOrders g e c s = (Inr j, s\<lparr>fetchLog := fetchLog s @ [query_of g c]\<rparr>)"
proof -
  from assms(1) obtain q where q: "cursor_query g c = Inr q"
    by (cases "cursor_query g c") auto
  then have "query_of g c = q" by (simp add: query_of_def)
  with q assms(2) show ?thesis by (simp add: fetchOrders_def Let_def)
qed

lemma loop_body_log: "fetchLog (after (loop_body g proxy e ord s)) = fetchLog s"
proof (cases "build_payload g proxy ord")
  case (Inl err)
  then show ?thesis by (simp add: loop_body_def)
next
  case (Inr r)
  show ?thesis
  proof (cases r)
    case None
    with Inr show ?thesis by (simp add: loop_body_def)
  next
    case (Some p)
    with Inr show ?thesis by (simp add: loop_body_payload)
  qed
qed

text \<open>A page none of whose orders raises is processed to its end, without a fetch.\<close>

lemma for_orders_ok:
  "list_all (\<lambda>ord. \<not> isl (build_payload g proxy ord)) ords \<Longrightarrow>
   \<exists>s'. for_orders g proxy e ords s = Inr s' \<and> fetchLog s' = fetchLog s"
proof (induction ords arbitrary: s)
  case Nil
  then show ?case by simp
next
  case (Cons ord ords)
  then have "\<not> isl (loop_body g proxy e ord s)" by (simp add: loop_body_raises)
  then obtain s1 where s1: "loop_body g proxy e ord s = Inr s1"
    by (cases "loop_body g proxy e ord s") auto
  with loop_body_log [of g proxy e ord s] have log: "fetchLog s1 = fetchLog s" by simp
  from Cons.prems have "list_all (\<lambda>ord. \<not> isl (build_payload g proxy ord)) ords" by simp
  from Cons.IH [OF this, of s1] s1 log show ?case by simp
qed

lemma page_orders:
  assumes "page_ok g proxy p"
  obtains ords where "getprop p ''orders'' = JArr ords"
    and "list_all (\<lambda>ord. \<not> isl (build_payload g proxy ord)) ords"
    and "oget p ''orders'' = JArr ords"
proof -
  from assms obtain ords where o: "getprop p ''orders'' = JArr ords"
    and l: "list_all (\<lambda>ord. \<not> isl (build_payload g proxy ord)) ords"
    by (auto simp: page_ok_def split: json.splits)
  from o have "\<not> nullish p" by (cases p) auto
  with o have "oget p ''orders'' = JArr ords" by (simp add: oget_def)
  with o l that show thesis by blast
qed

text \<open>One round of the \<^verbatim>\<open>while\<close> loop on the last page, and on a page before the last.\<close>

lemma step_last:
  assumes c: "\<not> isl (cursor_query g (cursor s))"
    and u: "upstream e (length (fetchLog s)) (query_of g (cursor s)) = Http True (Some p)"
    and ok: "page_ok g proxy p"
    and last: "\<not> truthy (page_cursor p)"
  shows "\<exists>s'. main_loop g proxy e (Suc k) s = Finished s' \<and>
              fetchLog s' = fetchLog s @ [query_of g (cursor s)]"
proof -
  let ?s1 = "s\<lparr>fetchLog := fetchLog s @ [query_of g (cursor s)]\<rparr>"
  have f: "fetchOrders g e (cursor s) s = (Inr p, ?s1)"
    using fetchOrders_page [OF c u] .
  from ok obtain ords where o: "getprop p ''orders'' = JArr ords"
    and l: "list_all (\<lambda>ord. \<not> isl (build_payload g proxy ord)) ords"
    and og: "oget p ''orders'' = JArr ords"
    by (rule page_orders)
  show ?thesis
  proof (cases "ords = []")
    case True
    with f og show ?thesis by (simp add: oget_def)
  next
    case False
    from for_orders_ok [OF l, of e ?s1] obtain s2 where
      s2: "for_orders g proxy e ords ?s1 = Inr s2" and log: "fetchLog s2 = fetchLog ?s1"
      by blast
    from last have "\<not> truthy (or_else (getprop p ''next'') (or_else (getprop p ''cursor'') JNull))"
      by (simp add: page_cursor_def)
    with f og o False s2 log show ?thesis by (simp add: oget_def Let_def)
  qed
qed

lemma step_inner:
  assumes c: "\<not> isl (cursor_query g (cursor s))"
    and u: "upstream e (length (fetchLog s)) (query_of g (cursor s)) = Http True (Some p)"
    and ok: "inner_ok g proxy p"
  shows "\<exists>s'. main_loop g proxy e (Suc k) s = main_loop g proxy e k s' \<and>
              fetchLog s' = fetchLog s @ [query_of g (cursor s)] \<and> cursor s' = page_cursor p"
proof -
  let ?s1 = "s\<lparr>fetchLog := fetchLog s @ [query_of g (cursor s)]\<rparr>"
  have f: "fetchOrders g e (cursor s) s = (Inr p, ?s1)"
    using fetchOrders_page [OF c u] .
  from ok have pk: "page_ok g proxy p" and ne: "getprop p ''orders'' \<noteq> JArr []"
    and t: "truthy (page_cursor p)"
    by (simp_all add: inner_ok_def)
  from pk obtain ords where o: "getprop p ''orders'' = JArr ords"
    and l: "list_all (\<lambda>ord. \<not> isl (build_payload g proxy ord)) ords"
    and og: "oget p ''orders'' = JArr ords"
    by (rule page_orders)
  from ne o have some: "ords \<noteq> []" by simp
  from for_orders_ok [OF l, of e ?s1] obtain s2 where
    s2: "for_orders g proxy e ords ?s1 = Inr s2" and log: "fetchLog s2 = fetchLog ?s1"
    by blast
  from t have "truthy (or_else (getprop p ''next'') (or_else (getprop p ''cursor'') JNull))"
    by (simp add: page_cursor_def)
  with f og o some s2 log
  have "main_loop g proxy e (Suc k) s = main_loop g proxy e k (s2\<lparr>cursor := page_cursor p\<rparr>)"
    by (simp add: oget_def Let_def page_cursor_def)
  with log show ?thesis by force
qed

lemma main_loop_pages:
  "pages \<noteq> [] \<Longrightarrow> list_all (inner_ok g proxy) (butlast pages) \<Longrightarrow>
   page_ok g proxy (last pages) \<Longrightarrow> \<not> truthy (page_cursor (last pages)) \<Longrightarrow>
   (\<forall>i<length pages. \<forall>q. upstream e (length (fetchLog s) + i) q = Http True (Some (pages ! i))) \<Longrightarrow>
   length pages \<le> k \<Longrightarrow> \<not> isl (cursor_query g (cursor s)) \<Longrightarrow>
   \<exists>s'. main_loop g proxy e k s = Finished s' \<and>
        fetchLog s' = fetchLog s @ map (query_of g) (cursor s # map page_cursor (butlast pages))"
proof (induction pages arbitrary: s k)
  case Nil
  then show ?case by simp
next
  case (Cons p ps)
  from Cons.prems(6) obtain k' where k: "k = Suc k'" and k': "length ps \<le> k'"
    by (cases k) auto
  from Cons.prems(5)
  have u: "upstream e (length (fetchLog s)) (query_of g (cursor s)) = Http True (Some p)"
    by fastforce
  show ?case
  proof (cases "ps = []")
    case True
    with Cons.prems have "page_ok g proxy p" "\<not> truthy (page_cursor p)" by simp_all
    from step_last [OF Cons.prems(7) u this, of k'] True k show ?thesis by simp
  next
    case False
    with Cons.prems(2) have inner: "inner_ok g proxy p"
      and rest: "list_all (inner_ok g proxy) (butlast ps)"
      by simp_all
    from step_inner [OF Cons.prems(7) u inner, of k'] obtain s1 where
      run: "main_loop g proxy e (Suc k') s = main_loop g proxy e k' s1" and
      log: "fetchLog s1 = fetchLog s @ [query_of g (cursor s)]" and
      cur: "cursor s1 = page_cursor p"
      by blast
    from inner cur have c1: "\<not> isl (cursor_query g (cursor s1))" by (simp add: inner_ok_def)
    from False Cons.prems(3,4)
    have l: "page_ok g proxy (last ps)" "\<not> truthy (page_cursor (last ps))"
      by simp_all
    have u1: "\<forall>i<length ps. \<forall>q. upstream e (length (fetchLog s1) + i) q = Http True (Some (ps ! i))"
    proof (intro allI impI)
      fix i q assume "i < length ps"
      then have "Suc i < length (p # ps)" by simp
      with Cons.prems(5)
      have "upstream e (length (fetchLog s) + Suc i) q = Http True (Some ((p # ps) ! Suc i))"
        by blast
      with log show "upstream e (length (fetchLog s1) + i) q = Http True (Some (ps ! i))" by simp
    qed
    from Cons.IH [OF False rest l u1 k' c1] obtain s' where
      "main_loop g proxy e k' s1 = Finished s'"
      "fetchLog s' = fetchLog s1 @ map (query_of g) (cursor s1 # map page_cursor (butlast ps))"
      by blast
    with run k log cur False show ?thesis by simp
  qed
qed

text \<open>
  Claim C7, as the code has it. Let the marketplace answer with the pages of a finite,
  non-empty list, one page per call, each with a success status, where every page has an
  array of orders none of which makes the construction of its payload raise, every page
  before the last has at least one order and a truthy next-cursor on which neither the
  conversion to a string nor \<^verbatim>\<open>encodeURIComponent\<close> raises, and the last page has no
  truthy next-cursor. Then a run whose bound allows one round per page ends normally,
  after exactly one fetch per page: the first without a cursor, each later one with the
  encoded next-cursor of the page before it.
\<close>

theorem one_fetch_per_page:
  assumes "pages \<noteq> []"
    and "list_all (inner_ok g proxy) (butlast pages)"
    and "page_ok g proxy (last pages)"
    and "\<not> truthy (page_cursor (last pages))"
    and "upstream e = serve pages"
    and "length pages \<le> k"
  shows "\<exists>s. main g proxy e k = Finished s \<and>
             fetchLog s = None # map (\<lambda>p. query_of g (page_cursor p)) (butlast pages) \<and>
             length (fetchLog s) = length pages"
proof -
  have u: "\<forall>i<length pages. \<forall>q.
             upstream e (length (fetchLog init) + i) q = Http True (Some (pages ! i))"
    using assms(5) by (simp add: serve_def init_def)
  have c: "\<not> isl (cursor_query g (cursor init))"
    by (simp add: init_def cursor_query_def)
  from main_loop_pages [OF assms(1-4) u assms(6) c] obtain s where
    s: "main_loop g proxy e k init = Finished s"
       "fetchLog s = fetchLog init @ map (query_of g) (cursor init # map page_cursor (butlast pages))"
    by blast
  have "query_of g (cursor init) = None"
    by (simp add: init_def query_of_def cursor_query_def)
  with s have log: "fetchLog s = None # map (\<lambda>p. query_of g (page_cursor p)) (butlast pages)"
    by (simp add: init_def comp_def)
  with assms(1) have "length (fetchLog s) = length pages" by simp
  with s(1) log show ?thesis by (simp add: main_def)
qed

text \<open>
  The witness is the specification's scenario E: two pages of one order each, the first
  with the cursor \<^verbatim>\<open>abc\<close>, and a backend that accepts.
\<close>

theorem one_fetch_per_page_witness:
  "[JObj [(''orders'', JArr [order_listed]), (''next'', JStr ''abc'')],
    JObj [(''orders'', JArr [order_listed])]] \<noteq> []
   \<and> (\<exists>s. main ascii_engine None
            \<lparr>upstream = serve [JObj [(''orders'', JArr [order_listed]), (''next'', JStr ''abc'')],
                               JObj [(''orders'', JArr [order_listed])]],
             backend = accepts\<rparr> 2 = Finished s
          \<and> fetchLog s = [None, Some ''abc''] \<and> length (fetchLog s) = 2)"
proof -
  let ?p1 = "JObj [(''orders'', JArr [order_listed]), (''next'', JStr ''abc'')]"
  let ?p2 = "JObj [(''orders'', JArr [order_listed])]"
  let ?e = "\<lparr>upstream = serve [?p1, ?p2], backend = accepts\<rparr>"
  have h1: "[?p1, ?p2] \<noteq> []" by simp
  have h2: "list_all (inner_ok ascii_engine None) (butlast [?p1, ?p2])" by code_simp
  have h3: "page_ok ascii_engine None (last [?p1, ?p2])" by code_simp
  have h4: "\<not> truthy (page_cursor (last [?p1, ?p2]))" by code_simp
  have h5: "upstream ?e = serve [?p1, ?p2]" by simp
  have h6: "length [?p1, ?p2] \<le> 2" by simp
  have q: "map (\<lambda>p. query_of ascii_engine (page_cursor p)) (butlast [?p1, ?p2]) = [Some ''abc'']"
    by code_simp
  from one_fetch_per_page [OF h1 h2 h3 h4 h5 h6] obtain s where
    r: "main ascii_engine None ?e 2 = Finished s" and
    l: "fetchLog s = None # map (\<lambda>p. query_of ascii_engine (page_cursor p)) (butlast [?p1, ?p2])"
    by blast
  from l q have l2: "fetchLog s = [None, Some ''abc'']" by simp
  then have "length (fetchLog s) = 2" by simp
  with r l2 h1 show ?thesis by blast
qed

text \<open>
  The claim as it was stated fails: a page without orders ends the run even when it
  carries a next-cursor, so the pages after it are never fetched. Here the list has two
  pages and the run makes one fetch.
\<close>

theorem empty_page_stops_run:
  "main ascii_engine None
     \<lparr>upstream = serve [JObj [(''orders'', JArr []), (''next'', JStr ''abc'')],
                        JObj [(''orders'', JArr [JObj [(''asset'', JObj [(''identifier'', JStr ''1'')]),
                                                     (''maker'', JObj [(''address'', JStr ''0xABC'')])]])]],
      backend = accepts\<rparr> 2
   = Finished \<lparr>cursor = JNull, totalScanned = 0, totalSent = 0, fetchLog = [None], postLog = []\<rparr>"
  by code_simp

subsection \<open>Where the script raises\<close>

text \<open>
  Claim C1 asks for the seller \<^verbatim>\<open>unknown\<close> when an order names no seller. The script
  does not get there. The maker that \<^verbatim>\<open>normalizeOrder\<close> returns is then the empty
  object, or the maker object without an address; either is truthy, so in
  \<^verbatim>\<open>(maker?.address || maker || "unknown").toLowerCase()\<close> the default is never
  taken, and the call of \<^verbatim>\<open>toLowerCase\<close> on an object raises a TypeError: no payload
  is built. The two orders below have a token and, the first, no maker at all, the
  second, a maker without an address.
\<close>

theorem no_seller_raises:
  "build_payload ascii_engine None (JObj [(''asset'', JObj [(''identifier'', JStr ''1'')])])
     = Inl TypeError
   \<and> build_payload ascii_engine None
        (JObj [(''asset'', JObj [(''identifier'', JStr ''1'')]),
               (''maker'', JObj [(''name'', JStr ''ape'')])]) = Inl TypeError"
  by code_simp

text \<open>
  Claim C2 asks that turning an order into a payload or a skip never raises. On a page
  with the one order that names no seller, the TypeError of the payload's
  \<^verbatim>\<open>sellerAddress\<close> leaves the \<^verbatim>\<open>for\<close> loop and \<^verbatim>\<open>main\<close>: the run ends at the
  top-level handler, after one fetch, with nothing counted and nothing posted.
\<close>

theorem no_seller_run_is_fatal:
  "main ascii_engine None
     \<lparr>upstream = serve [JObj [(''orders'', JArr [JObj [(''asset'', JObj [(''identifier'', JStr ''1'')])]])]],
      backend = accepts\<rparr> 1
   = Fatal TypeError
       \<lparr>cursor = JNull, totalScanned = 0, totalSent = 0, fetchLog = [None], postLog = []\<rparr>"
  by code_simp

text \<open>
  Claim C3 asks that a failed fetch of a page ends the run like an exhausted listing.
  That holds for a status that is not a success. It does not hold when the \<^verbatim>\<open>fetch\<close>
  itself is rejected, nor when the body of a successful response is not JSON:
  \<^verbatim>\<open>fetchOrders\<close> catches neither, and the run ends at the top-level handler.
\<close>

theorem failed_fetch_run_is_fatal:
  "main ascii_engine None \<lparr>upstream = (\<lambda>n q. NetFail), backend = accepts\<rparr> 1
   = Fatal NetworkError
       \<lparr>cursor = JNull, totalScanned = 0, totalSent = 0, fetchLog = [None], postLog = []\<rparr>
   \<and> main ascii_engine None \<lparr>upstream = (\<lambda>n q. Http True None), backend = accepts\<rparr> 1
   = Fatal SyntaxError
       \<lparr>cursor = JNull, totalScanned = 0, totalSent = 0, fetchLog = [None], postLog = []\<rparr>
   \<and> main ascii_engine None \<lparr>upstream = (\<lambda>n q. Http False None), backend = accepts\<rparr> 1
   = Finished
       \<lparr>cursor = JNull, totalScanned = 0, totalSent = 0, fetchLog = [None], postLog = []\<rparr>"
  by code_simp

end
